theory Spec2Isabelle
  imports Main "HOL-Library.Sublist"
begin

section \<open>Python values used by scraper.py\<close>

text \<open>
  The scraper is Python 2 code (\<open>filter\<close> returns a list whose \<open>len\<close> is taken, the raw
  response body is a byte string that is split into lines). Strings are byte strings,
  modelled as \<open>string\<close>; the exceptions the modelled functions can raise are values of
  \<open>py_error\<close>, and a function that can raise returns \<open>py_error + 'a\<close>.
\<close>

datatype py_error = IndexError | TypeError | ValueError

definition bind :: "py_error + 'a \<Rightarrow> ('a \<Rightarrow> py_error + 'b) \<Rightarrow> py_error + 'b" where
  "bind r f = (case r of Inl e \<Rightarrow> Inl e | Inr v \<Rightarrow> f v)"

definition quote2 :: string where
  \<comment> \<open>the Python literal \<open>"''"\<close>: two apostrophes\<close>
  "quote2 = [CHR 0x27, CHR 0x27]"

definition newline :: char where
  "newline = CHR 0x0A"

subsection \<open>\<open>str.strip()\<close>\<close>

definition is_space :: "char \<Rightarrow> bool" where
  \<comment> \<open>the whitespace of a Python 2 byte string: space, tab, LF, VT, FF, CR\<close>
  "is_space c = (c = CHR '' '' \<or> c = CHR 0x09 \<or> c = CHR 0x0A \<or> c = CHR 0x0B
                 \<or> c = CHR 0x0C \<or> c = CHR 0x0D)"

definition lstrip :: "string \<Rightarrow> string" where
  "lstrip s = dropWhile is_space s"

definition rstrip :: "string \<Rightarrow> string" where
  "rstrip s = rev (dropWhile is_space (rev s))"

definition strip :: "string \<Rightarrow> string" where
  "strip s = rstrip (lstrip s)"

subsection \<open>\<open>sub in s\<close>, \<open>s.replace(old, new)\<close>, \<open>s.split(sep)\<close>\<close>

fun contains :: "string \<Rightarrow> string \<Rightarrow> bool" where
  \<comment> \<open>\<open>contains sub s\<close> is Python's \<open>sub in s\<close>\<close>
  "contains sub [] = (sub = [])"
| "contains sub (c # cs) = (prefix sub (c # cs) \<or> contains sub cs)"

fun replace_scan :: "string \<Rightarrow> string \<Rightarrow> string \<Rightarrow> string" where
  \<comment> \<open>left to right, non-overlapping occurrences of a non-empty \<open>old\<close>\<close>
  "replace_scan old new [] = []"
| "replace_scan old new (c # cs) =
     (if prefix old (c # cs) then new @ replace_scan old new (drop (length old - 1) cs)
      else c # replace_scan old new cs)"

definition replace :: "string \<Rightarrow> string \<Rightarrow> string \<Rightarrow> string" where
  \<comment> \<open>\<open>replace s old new\<close> is \<open>s.replace(old, new)\<close>; an empty \<open>old\<close> matches between
      all characters\<close>
  "replace s old new =
     (if old = [] then new @ concat (map (\<lambda>c. c # new) s) else replace_scan old new s)"

fun split_scan :: "string \<Rightarrow> string \<Rightarrow> string \<Rightarrow> string list" where
  \<comment> \<open>\<open>cur\<close> is the segment read so far\<close>
  "split_scan sep cur [] = [cur]"
| "split_scan sep cur (c # cs) =
     (if prefix sep (c # cs) then cur # split_scan sep [] (drop (length sep - 1) cs)
      else split_scan sep (cur @ [c]) cs)"

definition split :: "string \<Rightarrow> string \<Rightarrow> string list" where
  \<comment> \<open>\<open>split s sep\<close> is \<open>s.split(sep)\<close>; every call in the scraper passes a non-empty
      literal (Python raises ValueError for an empty separator)\<close>
  "split s sep = split_scan sep [] s"

subsection \<open>The regular expressions of the track normalizer\<close>

definition is_digit :: "char \<Rightarrow> bool" where
  \<comment> \<open>\<open>\d\<close> on a byte string\<close>
  "is_digit c = (c \<in> set ''0123456789'')"

definition is_stamp_char :: "char \<Rightarrow> bool" where
  \<comment> \<open>the class \<open>[\d|\?|:]\<close>: a digit, a bar, a question mark or a colon\<close>
  "is_stamp_char c = (is_digit c \<or> c = CHR ''|'' \<or> c = CHR ''?'' \<or> c = CHR '':'')"

definition sub_timestamp :: "string \<Rightarrow> string" where
  \<comment> \<open>\<open>re.sub('^\[[\d|\?|:]+\]', '', s)\<close>: the closing bracket is not in the class, so
      the greedy run is the only candidate\<close>
  "sub_timestamp s =
     (case s of
        [] \<Rightarrow> []
      | c # cs \<Rightarrow>
          (case dropWhile is_stamp_char cs of
             [] \<Rightarrow> s
           | d # rest \<Rightarrow>
               if c = CHR ''['' \<and> takeWhile is_stamp_char cs \<noteq> [] \<and> d = CHR '']''
               then rest else s))"

definition sub_ordinal :: "string \<Rightarrow> string" where
  \<comment> \<open>\<open>re.sub('^\d+\.', '', s)\<close>\<close>
  "sub_ordinal s =
     (case dropWhile is_digit s of
        [] \<Rightarrow> s
      | d # rest \<Rightarrow> if takeWhile is_digit s \<noteq> [] \<and> d = CHR ''.'' then rest else s)"

definition sub_qmarks :: "string \<Rightarrow> string" where
  \<comment> \<open>\<open>re.sub('\?+', '', s)\<close>: every run of question marks goes\<close>
  "sub_qmarks s = filter (\<lambda>c. c \<noteq> CHR ''?'') s"

definition chop_newline :: "string \<Rightarrow> string" where
  \<comment> \<open>\<open>$\<close> matches at the end of the string and before a newline that ends it\<close>
  "chop_newline s = (if s \<noteq> [] \<and> last s = newline then butlast s else s)"

definition label_at :: "string \<Rightarrow> bool" where
  \<comment> \<open>\<open>\[.+\]$\<close> matches at the head of \<open>s\<close>: an opening bracket, at least one character
      other than a newline, a closing bracket, the end\<close>
  "label_at s =
     (case s of
        [] \<Rightarrow> False
      | c # cs \<Rightarrow>
          c = CHR ''['' \<and> 2 \<le> length (chop_newline cs) \<and> last (chop_newline cs) = CHR '']''
          \<and> newline \<notin> set (butlast (chop_newline cs)))"

fun LABEL_REGEX_search :: "string \<Rightarrow> string option" where
  \<comment> \<open>\<open>LABEL_REGEX.search(s)\<close>, \<open>group(0)\<close> of the leftmost match\<close>
  "LABEL_REGEX_search [] = None"
| "LABEL_REGEX_search (c # cs) =
     (if label_at (c # cs) then Some (c # chop_newline cs) else LABEL_REGEX_search cs)"

section \<open>Track normalizer: \<open>skip_track\<close> and \<open>parse_tracks\<close>\<close>

type_synonym parsed_track = "string \<times> string \<times> string"

definition skip_track :: "string \<Rightarrow> py_error + bool" where
  \<comment> \<open>\<open>track[0]\<close> raises on the empty string\<close>
  "skip_track track =
     (let skip = (contains ''<list>'' track \<or> contains ''</list>'' track) in
      case track of
        [] \<Rightarrow> Inl IndexError
      | c # _ \<Rightarrow>
          (let section = (c = CHR '';''); empty = (strip track = [])
           in Inr (\<not> (skip \<or> section \<or> empty))))"

definition strip_hash :: "string \<Rightarrow> py_error + string" where
  \<comment> \<open>\<open>processed_track[0]\<close> raises on the empty string\<close>
  "strip_hash s =
     (case s of
        [] \<Rightarrow> Inl IndexError
      | c # cs \<Rightarrow> Inr (if c = CHR ''#'' then strip cs else s))"

definition remove_superfluous :: "string \<Rightarrow> string" where
  \<comment> \<open>the loop over \<open>["''", "* ", "+ "]\<close>: each token is compared with the first two
      characters of the text the previous iteration left\<close>
  "remove_superfluous s =
     foldl (\<lambda>p remove. if take 2 p = remove then strip (drop 2 p) else p) s
       [quote2, ''* '', ''+ '']"

definition cut_featuring :: "string \<Rightarrow> string" where
  \<comment> \<open>the loop over \<open>[' Feat.', ' Featuring']\<close>; \<open>split\<close> never returns an empty list\<close>
  "cut_featuring a =
     foldl (\<lambda>artist feat. if contains feat artist then hd (split artist feat) else artist) a
       ['' Feat.'', '' Featuring'']"

definition extract_label :: "string \<Rightarrow> string \<times> string" where
  \<comment> \<open>the label step: the text left and the label\<close>
  "extract_label p =
     (let label = (case LABEL_REGEX_search p of Some m \<Rightarrow> m | None \<Rightarrow> [])
      in if label \<noteq> []
         then (strip (replace p label []),
               strip (replace (replace label ''['' []) '']'' []))
         else (p, label))"

definition extract_fields :: "string \<Rightarrow> parsed_track" where
  \<comment> \<open>from \<open>artist, track, label = 'unknown', 'unknown', 'unknown'\<close> to the append\<close>
  "extract_fields p =
     (if strip (sub_qmarks p) = [] then (''unknown'', ''unknown'', ''unknown'')
      else
        (let (rest, label) = extract_label p;
             segments = split rest '' - ''
         in if 1 < length segments
            then (cut_featuring (strip (segments ! 0)), strip (segments ! 1), label)
            else (''unknown'', ''unknown'', label)))"

definition clean_line :: "string \<Rightarrow> py_error + string" where
  \<comment> \<open>the four stripping steps of the loop body\<close>
  "clean_line raw_track =
     bind (strip_hash raw_track)
       (\<lambda>p. Inr (remove_superfluous (strip (sub_ordinal (strip (sub_timestamp p))))))"

definition parse_track :: "string \<Rightarrow> py_error + parsed_track" where
  \<comment> \<open>one iteration of the loop of \<open>parse_tracks\<close>\<close>
  "parse_track raw_track = bind (clean_line raw_track) (\<lambda>p. Inr (extract_fields p))"

datatype tracks_field = Absent | Null | Lines "string list"
  \<comment> \<open>\<open>mix_data.get('tracks', [])\<close>: the key is missing, holds \<open>None\<close>, or holds the lines\<close>

datatype log_line =
    LogCounts nat nat
  | LogTrack string
  | LogParsed parsed_track
  | LogNoTrack

fun filter_tracks :: "string list \<Rightarrow> py_error + string list" where
  \<comment> \<open>\<open>filter(skip_track, tracks)\<close>, a list in Python 2\<close>
  "filter_tracks [] = Inr []"
| "filter_tracks (t # ts) =
     bind (skip_track t)
       (\<lambda>keep. bind (filter_tracks ts) (\<lambda>r. Inr (if keep then t # r else r)))"

fun parse_loop :: "string list \<Rightarrow> parsed_track list \<Rightarrow> py_error + parsed_track list" where
  \<comment> \<open>the \<open>for raw_track in tracks\<close> loop, \<open>parsed_tracks\<close> threaded through\<close>
  "parse_loop [] parsed_tracks = Inr parsed_tracks"
| "parse_loop (raw_track # ts) parsed_tracks =
     bind (parse_track raw_track) (\<lambda>r. parse_loop ts (parsed_tracks @ [r]))"

definition report :: "string list \<Rightarrow> parsed_track list \<Rightarrow> log_line list" where
  \<comment> \<open>what the \<open>not fully_parsed\<close> branch prints\<close>
  "report tracks parsed_tracks =
     LogCounts (length parsed_tracks) (length tracks) #
     concat (map (\<lambda>(index, track).
                    [LogTrack track,
                     if index < length parsed_tracks then LogParsed (parsed_tracks ! index)
                     else LogNoTrack])
                 (zip [0 ..< length tracks] tracks))"

definition parse_tracks :: "tracks_field \<Rightarrow> py_error + (log_line list \<times> parsed_track list)" where
  \<comment> \<open>the result is what was printed and the list returned\<close>
  "parse_tracks field =
     (case field of
        Null \<Rightarrow> Inl TypeError
      | _ \<Rightarrow>
        bind (filter_tracks (case field of Lines ls \<Rightarrow> ls | _ \<Rightarrow> []))
          (\<lambda>tracks. bind (parse_loop tracks [])
             (\<lambda>parsed_tracks.
                (let fully_parsed = (length parsed_tracks = length tracks)
                 in Inr (if \<not> fully_parsed then report tracks parsed_tracks else [],
                         parsed_tracks)))))"

definition survives_spec :: "string \<Rightarrow> bool" where
  \<comment> \<open>the skip filter in the words of the specification: a line is excluded when it
      equals a list delimiter, starts with a semicolon, or is blank after trimming\<close>
  "survives_spec l =
     (l \<noteq> ''<list>'' \<and> l \<noteq> ''</list>'' \<and> \<not> prefix '';'' l \<and> strip l \<noteq> [])"

section \<open>Tracklist splitter: \<open>parse_tracklist\<close>\<close>

datatype duplicate = Flag bool | Original string
  \<comment> \<open>\<open>False\<close>, \<open>True\<close>, or the second line of a duplicate pointer\<close>

definition clean_category :: "string \<Rightarrow> string" where
  "clean_category c = strip (replace (replace c ''[[Category:'' []) '']]'' [])"

definition parse_tracklist ::
  "string \<Rightarrow> py_error + (string list option \<times> string list option \<times> duplicate)" where
  \<comment> \<open>\<open>lines[1]\<close> raises IndexError on a one-line duplicate pointer; the loop over
      \<open>categories\<close> raises TypeError when they are still \<open>None\<close>\<close>
  "parse_tracklist text =
     (case split text [newline] of
        [] \<Rightarrow> Inl IndexError
      | l0 # ls \<Rightarrow>
          if contains ''Fake'' l0 \<or> contains ''Repeat'' l0
          then (case ls of
                  [] \<Rightarrow> Inl IndexError
                | l1 # _ \<Rightarrow> Inr (None, None, Original (replace l1 '' |Original  ='' [])))
          else
            (let lines = l0 # ls;
                 category_index = length (takeWhile (\<lambda>l. \<not> contains ''[[Category:'' l) lines)
             in if ''== Tracklist =='' \<in> set lines
                then
                  (let header = length (takeWhile (\<lambda>l. l \<noteq> ''== Tracklist =='') lines);
                       tracklist = filter (\<lambda>l. l \<noteq> [])
                                     (take (category_index - (header + 1))
                                        (drop (header + 1) lines));
                       categories = map clean_category
                                      (filter (\<lambda>l. l \<noteq> []) (drop category_index lines))
                   in Inr (Some tracklist, Some categories,
                           Flag (list_ex (contains ''{{Repeated|'') categories)))
                else Inl TypeError))"

section \<open>Link parser: \<open>parse_mix_link\<close>\<close>

record link_tag =
  href :: string
  title :: string

record mix_identity =
  date :: string
  artists :: "string list"
  venue :: string

definition MIXES_TO_IGNORE :: "string list" where
  "MIXES_TO_IGNORE =
     [''/w/1998-01_-_David_Holmes_-_Essential_Mix'',
      ''/w/2000_-_Fran%C3%A7ois_K_-_Essential_Mix'']"

definition date_at :: "string \<Rightarrow> bool" where
  \<comment> \<open>\<open>\d{4}-\d{2}-\d{2}\<close> matches at the head of \<open>s\<close>\<close>
  "date_at s =
     (10 \<le> length s \<and> list_all is_digit (take 4 s) \<and> s ! 4 = CHR ''-''
      \<and> list_all is_digit (take 2 (drop 5 s)) \<and> s ! 7 = CHR ''-''
      \<and> list_all is_digit (take 2 (drop 8 s)))"

fun DATE_REGEX_search :: "string \<Rightarrow> string option" where
  "DATE_REGEX_search [] = None"
| "DATE_REGEX_search (c # cs) =
     (if date_at (c # cs) then Some (take 10 (c # cs)) else DATE_REGEX_search cs)"

definition artist_venue_of :: "string \<Rightarrow> string \<Rightarrow> string list \<Rightarrow>
    py_error + (string \<times> mix_identity) option" where
  \<comment> \<open>from \<open>artist_venue = segments[1].split(' @ ')\<close> to the return\<close>
  "artist_venue_of mix_url d segments =
     (case segments of
        _ # s1 # _ \<Rightarrow>
          (let artist_venue = split s1 '' @ ''
           in Inr (Some (mix_url,
                 \<lparr>date = d,
                  artists = map strip (split (hd artist_venue) '',''),
                  venue = (if 1 < length artist_venue then strip (artist_venue ! 1) else [])\<rparr>)))
      | _ \<Rightarrow> Inl IndexError)"

definition parse_mix_link :: "link_tag \<Rightarrow> py_error + (string \<times> mix_identity) option" where
  \<comment> \<open>\<open>None\<close> is the pair \<open>None, None\<close> of an ignored mix\<close>
  "parse_mix_link tag =
     (let mix_url = href tag in
      if mix_url \<in> set MIXES_TO_IGNORE then Inr None
      else
        (let t = replace (replace (title tag) '' - Essential Mix'' []) ''(Essential Mix)'' [];
             segments = split t '' - ''
         in case segments of
              [] \<Rightarrow> Inl IndexError
            | s0 # rest \<Rightarrow>
                if length s0 = 10 then artist_venue_of mix_url s0 segments
                else
                  (case DATE_REGEX_search t of
                     Some d \<Rightarrow>
                       (case rest of
                          [] \<Rightarrow> Inl IndexError
                        | s1 # rest' \<Rightarrow>
                            artist_venue_of mix_url d
                              (s0 # replace s1 (''(Essential Mix, '' @ d @ '')'') [] # rest'))
                   | None \<Rightarrow> artist_venue_of mix_url [] segments)))"

section \<open>Category cleaner: the category loop of \<open>clean_data\<close>\<close>

definition venue_categories :: "string list" where
  "venue_categories =
     [''Cream'', ''Privilege (Ibiza)'', ''Unknown Gig / Location'', ''Space (Ibiza)'',
      ''Que Club'', ''Ministry Of Sound'', ''Glastonbury Festival'', ''One Big Weekend'',
      ''Creamfields'', ''Gatecrasher'', ''Homelands'', ''Surfcomber Hotel'', ''WMC'',
      ''The Warehouse Project'', ''Amnesia (Ibiza)'', ''Pacha (Ibiza)'', ''Sankeys (Ibiza)'']"

definition artist_categories :: "string list" where
  "artist_categories =
     [''Pete Tong'', ''Carl Cox'', ''Various'', ''John Digweed'', ''Danny Rampling'',
      ''Annie Mac'', ''Chemical Brothers'', ''Judge Jules'', ''Sasha'', ''Fergie'',
      ''Dave Pearce'', ''Fatboy Slim'', ''Paul Oakenfold'', ''Seb Fontaine'',
      ''Eddie Halliwell'', ''Eric Prydz'']"

definition remove_categories :: "string list \<Rightarrow> string \<Rightarrow> string list" where
  \<comment> \<open>\<open>list(set(...))\<close> with the year appended; only membership is ever asked\<close>
  "remove_categories arts d =
     remdups ([''Essential Mix''] @ arts @ artist_categories @ venue_categories) @ [take 4 d]"

definition match_essential :: "string \<Rightarrow> bool" where
  \<comment> \<open>\<open>re.compile('Essential Mix\|\d\d\d\d-\d\d-\d\d').match\<close>: anchored at the start only\<close>
  "match_essential c = (prefix ''Essential Mix|'' c \<and> date_at (drop 14 c))"

definition match_ibiza :: "string \<Rightarrow> bool" where
  \<comment> \<open>\<open>re.compile('Ibiza \d\d\d\d').match\<close>\<close>
  "match_ibiza c =
     (prefix ''Ibiza '' c \<and> 10 \<le> length c \<and> list_all is_digit (take 4 (drop 6 c)))"

fun list_remove :: "string list \<Rightarrow> string \<Rightarrow> py_error + string list" where
  \<comment> \<open>\<open>list.remove(x)\<close>: the first equal element goes, ValueError when there is none\<close>
  "list_remove [] x = Inl ValueError"
| "list_remove (y # ys) x =
     (if y = x then Inr ys else bind (list_remove ys x) (\<lambda>r. Inr (y # r)))"

definition remove_if :: "bool \<Rightarrow> string \<Rightarrow> string list \<Rightarrow> py_error + string list" where
  "remove_if b category categories = (if b then list_remove categories category else Inr categories)"

fun clean_loop :: "string list \<Rightarrow> string list \<Rightarrow> string list \<Rightarrow> py_error + string list" where
  \<comment> \<open>the loop over \<open>value['categories']\<close>, removing from the copy \<open>categories\<close>\<close>
  "clean_loop rm [] categories = Inr categories"
| "clean_loop rm (category # cs) categories =
     bind (remove_if (strip category \<in> set rm) category categories)
       (\<lambda>c1. bind (remove_if (match_essential category) category c1)
         (\<lambda>c2. bind (remove_if (match_ibiza category) category c2)
           (\<lambda>c3. clean_loop rm cs c3)))"

definition clean_categories :: "string list \<Rightarrow> string \<Rightarrow> string list \<Rightarrow> py_error + string list" where
  \<comment> \<open>the new \<open>value['categories']\<close> of a record that is not a duplicate\<close>
  "clean_categories arts d categories = clean_loop (remove_categories arts d) categories categories"

definition removable :: "string list \<Rightarrow> string \<Rightarrow> string \<Rightarrow> bool" where
  \<comment> \<open>a category the cleaner is to remove\<close>
  "removable arts d c =
     (strip c \<in> set (remove_categories arts d) \<or> match_essential c \<or> match_ibiza c)"

section \<open>Properties\<close>

subsection \<open>Facts about the primitives\<close>

lemma split_scan_nonempty: "split_scan sep cur s \<noteq> []"
  by (induction s arbitrary: cur) simp_all

lemma split_nonempty: "split s sep \<noteq> []"
  \<comment> \<open>\<open>s.split(sep)[0]\<close> never raises\<close>
  by (simp add: split_def split_scan_nonempty)

lemma clean_line_total: "raw \<noteq> [] \<Longrightarrow> \<exists>p. clean_line raw = Inr p"
  by (cases raw) (simp_all add: clean_line_def strip_hash_def bind_def)

lemma replace_single: "replace s [a] [] = filter (\<lambda>c. c \<noteq> a) s"
  by (induction s) (auto simp: replace_def)

lemma LABEL_REGEX_search_nonempty: "LABEL_REGEX_search p = Some m \<Longrightarrow> m \<noteq> []"
  by (induction p) (auto split: if_splits)

lemma label_text:
  "m \<noteq> [] \<Longrightarrow> LABEL_REGEX_search p = Some m \<Longrightarrow>
   snd (extract_label p) = strip (filter (\<lambda>c. c \<noteq> CHR ''['' \<and> c \<noteq> CHR '']'') m)"
  by (simp add: extract_label_def replace_single)

lemma skip_track_nonempty:
  "t \<noteq> [] \<Longrightarrow>
   skip_track t = Inr (\<not> contains ''<list>'' t \<and> \<not> contains ''</list>'' t
                        \<and> \<not> prefix '';'' t \<and> strip t \<noteq> [])"
  by (cases t) (auto simp add: skip_track_def)

lemma filter_tracks_eq:
  "[] \<notin> set ls \<Longrightarrow>
   filter_tracks ls =
     Inr (filter (\<lambda>t. \<not> contains ''<list>'' t \<and> \<not> contains ''</list>'' t
                        \<and> \<not> prefix '';'' t \<and> strip t \<noteq> []) ls)"
proof (induction ls)
  case Nil
  then show ?case by simp
next
  case (Cons t ts)
  then have t: "t \<noteq> []" and ts: "[] \<notin> set ts" by auto
  show ?case
    by (simp add: skip_track_nonempty[OF t] Cons.IH[OF ts] bind_def del: contains.simps)
qed

lemma parse_track_total: "t \<noteq> [] \<Longrightarrow> \<exists>r. parse_track t = Inr r"
proof -
  assume "t \<noteq> []"
  then obtain p where "clean_line t = Inr p" using clean_line_total by blast
  then have "parse_track t = Inr (extract_fields p)" by (simp add: parse_track_def bind_def)
  then show ?thesis by (rule exI)
qed

lemma parse_loop_eq:
  "[] \<notin> set ts \<Longrightarrow>
   \<exists>rs. parse_loop ts acc = Inr (acc @ rs) \<and> map parse_track ts = map Inr rs"
proof (induction ts arbitrary: acc)
  case Nil
  then show ?case by simp
next
  case (Cons t ts)
  then have t: "t \<noteq> []" and ts: "[] \<notin> set ts" by auto
  from parse_track_total[OF t] obtain r where r: "parse_track t = Inr r" by blast
  from Cons.IH[OF ts, of "acc @ [r]"] obtain rs where
    rs: "parse_loop ts (acc @ [r]) = Inr ((acc @ [r]) @ rs)"
      "map parse_track ts = map Inr rs" by blast
  have "parse_loop (t # ts) acc = Inr (acc @ (r # rs))" by (simp add: r bind_def rs)
  moreover have "map parse_track (t # ts) = map Inr (r # rs)" by (simp add: r rs)
  ultimately show ?case by blast
qed

lemma parse_tracks_absent: "parse_tracks Absent = Inr ([], [])"
  by (simp add: parse_tracks_def bind_def)

lemma parse_tracklist_no_empty_lines:
  assumes "parse_tracklist text = Inr (Some tracklist, categories, d)"
  shows "[] \<notin> set tracklist"
proof (cases "split text [newline]")
  case Nil
  with assms show ?thesis by (simp add: parse_tracklist_def)
next
  case (Cons l0 ls)
  show ?thesis
  proof (cases "contains ''Fake'' l0 \<or> contains ''Repeat'' l0")
    case True
    with assms Cons show ?thesis by (simp add: parse_tracklist_def split: list.splits)
  next
    case False
    show ?thesis
    proof (cases "''== Tracklist =='' \<in> set (l0 # ls)")
      case h: True
      from assms have "tracklist = filter (\<lambda>l. l \<noteq> [])
                 (take (length (takeWhile (\<lambda>l. \<not> contains ''[[Category:'' l) (l0 # ls))
                         - (length (takeWhile (\<lambda>l. l \<noteq> ''== Tracklist =='') (l0 # ls)) + 1))
                    (drop (length (takeWhile (\<lambda>l. l \<noteq> ''== Tracklist =='') (l0 # ls)) + 1)
                       (l0 # ls)))"
        unfolding parse_tracklist_def Cons Let_def list.case if_not_P[OF False] if_P[OF h]
        by simp
      then show ?thesis by simp
    next
      case h: False
      from assms show ?thesis
        unfolding parse_tracklist_def Cons Let_def list.case if_not_P[OF False] if_not_P[OF h]
        by simp
    qed
  qed
qed

lemma strip_Nil_iff: "strip s = [] \<longleftrightarrow> (\<forall>c\<in>set s. is_space c)"
proof -
  have "strip s = [] \<longleftrightarrow> (\<forall>c\<in>set (dropWhile is_space s). is_space c)"
    by (simp add: strip_def rstrip_def lstrip_def dropWhile_eq_Nil_conv)
  also have "\<dots> \<longleftrightarrow> dropWhile is_space s = []"
  proof (cases "dropWhile is_space s")
    case Nil
    then show ?thesis by (simp del: dropWhile_eq_Nil_conv)
  next
    case (Cons a list)
    with hd_dropWhile[of is_space s] have "\<not> is_space a" by (simp del: dropWhile_eq_Nil_conv)
    with Cons show ?thesis by (auto simp del: dropWhile_eq_Nil_conv)
  qed
  also have "\<dots> \<longleftrightarrow> (\<forall>c\<in>set s. is_space c)"
    by (simp add: dropWhile_eq_Nil_conv)
  finally show ?thesis .
qed

lemma rstrip_Nil_iff: "rstrip s = [] \<longleftrightarrow> (\<forall>c\<in>set s. is_space c)"
  by (simp add: rstrip_def dropWhile_eq_Nil_conv)

lemma rstrip_Cons:
  "rstrip (c # cs) = (if is_space c \<and> rstrip cs = [] then [] else c # rstrip cs)"
  by (auto simp: rstrip_def dropWhile_append dropWhile_eq_Nil_conv)

lemma rstrip_append: "rstrip b \<noteq> [] \<Longrightarrow> rstrip (a @ b) = a @ rstrip b"
  by (induction a) (simp_all add: rstrip_Cons)

lemma rstrip_idem: "rstrip (rstrip s) = rstrip s"
  by (simp add: rstrip_def)

lemma lstrip_rstrip: "lstrip (rstrip s) = rstrip (lstrip s)"
proof (induction s)
  case Nil
  then show ?case by (simp add: lstrip_def rstrip_def)
next
  case (Cons c cs)
  show ?case
  proof (cases "is_space c")
    case True
    then have l: "lstrip (c # cs) = lstrip cs" by (simp add: lstrip_def)
    show ?thesis
    proof (cases "rstrip cs = []")
      case e: True
      with Cons.IH have "rstrip (lstrip cs) = []" by (simp add: lstrip_def)
      with e True l show ?thesis by (simp add: rstrip_Cons lstrip_def)
    next
      case e: False
      with True have "rstrip (c # cs) = c # rstrip cs" by (simp add: rstrip_Cons)
      with True have "lstrip (rstrip (c # cs)) = lstrip (rstrip cs)" by (simp add: lstrip_def)
      with Cons.IH l show ?thesis by simp
    qed
  next
    case False
    then show ?thesis by (simp add: rstrip_Cons lstrip_def)
  qed
qed

lemma strip_rstrip: "strip (rstrip s) = strip s"
  by (simp add: strip_def lstrip_rstrip rstrip_idem)






subsection \<open>Track normalizer\<close>

text \<open>
  C9: the line \<open>[12:34] Artist - Track [Label Records]\<close> loses its leading timestamp, its
  trailing bracketed text becomes the label, and the result is artist \<open>Artist\<close>, title
  \<open>Track\<close>, label \<open>Label Records\<close>.
\<close>

theorem parse_track_timestamp_label:
  "parse_track ''[12:34] Artist - Track [Label Records]''
     = Inr (''Artist'', ''Track'', ''Label Records'')"
  by code_simp

text \<open>
  C8: a line that is empty once the stripping steps have run and the question marks are
  removed and the rest is trimmed yields \<open>unknown\<close> in all three fields. Every non-empty
  raw line gets through the stripping steps without an exception.
\<close>

theorem parse_track_unidentified:
  "raw \<noteq> [] \<Longrightarrow>
   \<exists>p. clean_line raw = Inr p \<and>
       (strip (sub_qmarks p) = [] \<longrightarrow>
          parse_track raw = Inr (''unknown'', ''unknown'', ''unknown''))"
proof -
  assume "raw \<noteq> []"
  then obtain p where p: "clean_line raw = Inr p" using clean_line_total by blast
  have "strip (sub_qmarks p) = [] \<longrightarrow>
          parse_track raw = Inr (''unknown'', ''unknown'', ''unknown'')"
    by (simp add: parse_track_def p bind_def extract_fields_def)
  with p show ?thesis by blast
qed

theorem parse_track_unidentified_witness:
  "''???'' \<noteq> [] \<and> clean_line ''???'' = Inr ''???'' \<and> strip (sub_qmarks ''???'') = []
   \<and> parse_track ''???'' = Inr (''unknown'', ''unknown'', ''unknown'')"
proof -
  have ne: "''???'' \<noteq> []" by simp
  have cl: "clean_line ''???'' = Inr ''???''" by code_simp
  have q: "strip (sub_qmarks ''???'') = []" by code_simp
  from parse_track_unidentified[OF ne] cl q show ?thesis by auto
qed

text \<open>
  C1 as stated fails: the line \<open>Artist\<close> is not made of question marks, has no label and
  does not split, and its label is the empty string, not \<open>unknown\<close>.
\<close>

theorem label_unknown_counterexample:
  "strip (sub_qmarks ''Artist'') \<noteq> []
   \<and> length (split (fst (extract_label ''Artist'')) '' - '') < 2
   \<and> parse_track ''Artist'' = Inr (''unknown'', ''unknown'', [])
   \<and> parse_track ''Artist'' \<noteq> Inr (''unknown'', ''unknown'', ''unknown'')"
  by code_simp

text \<open>
  C1 amended: for a line that is not made of question marks only and whose text after the
  label step does not split into two segments, artist and title are \<open>unknown\<close> and the
  label is the one the label step resolved, which a failed split does not overwrite: the
  empty string when no trailing bracketed text matched, and otherwise the matched text
  without its brackets, trimmed.
\<close>

theorem label_kept_when_split_fails:
  "raw \<noteq> [] \<Longrightarrow>
   \<exists>p. clean_line raw = Inr p \<and>
       (strip (sub_qmarks p) \<noteq> [] \<and> length (split (fst (extract_label p)) '' - '') < 2 \<longrightarrow>
          parse_track raw = Inr (''unknown'', ''unknown'', snd (extract_label p))
          \<and> (LABEL_REGEX_search p = None \<longrightarrow> snd (extract_label p) = [])
          \<and> (\<forall>m. LABEL_REGEX_search p = Some m \<longrightarrow>
                snd (extract_label p)
                  = strip (filter (\<lambda>c. c \<noteq> CHR ''['' \<and> c \<noteq> CHR '']'') m)))"
proof -
  assume "raw \<noteq> []"
  then obtain p where p: "clean_line raw = Inr p" using clean_line_total by blast
  have a: "parse_track raw = Inr (''unknown'', ''unknown'', snd (extract_label p))"
    if q: "strip (sub_qmarks p) \<noteq> []"
      and l: "length (split (fst (extract_label p)) '' - '') < 2"
  proof -
    obtain rest label where el: "extract_label p = (rest, label)"
      by (cases "extract_label p")
    from l el have n: "\<not> 1 < length (split rest '' - '')" by simp
    have "extract_fields p = (''unknown'', ''unknown'', label)"
      unfolding extract_fields_def using q n by (simp add: el del: One_nat_def)
    then show ?thesis by (simp add: parse_track_def p bind_def el)
  qed
  have b: "LABEL_REGEX_search p = None \<longrightarrow> snd (extract_label p) = []"
    by (simp add: extract_label_def)
  have c: "\<forall>m. LABEL_REGEX_search p = Some m \<longrightarrow>
             snd (extract_label p)
               = strip (filter (\<lambda>c. c \<noteq> CHR ''['' \<and> c \<noteq> CHR '']'') m)"
  proof (intro allI impI)
    fix m assume m: "LABEL_REGEX_search p = Some m"
    from LABEL_REGEX_search_nonempty[OF m] have "m \<noteq> []" .
    from label_text[OF this m]
    show "snd (extract_label p)
            = strip (filter (\<lambda>c. c \<noteq> CHR ''['' \<and> c \<noteq> CHR '']'') m)" .
  qed
  show ?thesis
  proof (rule exI[of _ p], intro conjI impI)
    show "clean_line raw = Inr p" by (rule p)
  next
    assume "strip (sub_qmarks p) \<noteq> []
              \<and> length (split (fst (extract_label p)) '' - '') < 2"
    then show "parse_track raw = Inr (''unknown'', ''unknown'', snd (extract_label p))"
      using a by (elim conjE)
  next
    assume "LABEL_REGEX_search p = None"
    with b show "snd (extract_label p) = []" by (rule mp)
  next
    show "\<forall>m. LABEL_REGEX_search p = Some m \<longrightarrow>
            snd (extract_label p)
              = strip (filter (\<lambda>c. c \<noteq> CHR ''['' \<and> c \<noteq> CHR '']'') m)"
      by (rule c)
  qed
qed

theorem label_kept_when_split_fails_witness:
  "''# Intro [Promo]'' \<noteq> [] \<and> clean_line ''# Intro [Promo]'' = Inr ''Intro [Promo]''
   \<and> strip (sub_qmarks ''Intro [Promo]'') \<noteq> []
   \<and> length (split (fst (extract_label ''Intro [Promo]'')) '' - '') < 2
   \<and> LABEL_REGEX_search ''Intro [Promo]'' = Some ''[Promo]''
   \<and> parse_track ''# Intro [Promo]'' = Inr (''unknown'', ''unknown'', ''Promo'')"
proof -
  have ne: "''# Intro [Promo]'' \<noteq> []" by simp
  have cl: "clean_line ''# Intro [Promo]'' = Inr ''Intro [Promo]''" by code_simp
  have q: "strip (sub_qmarks ''Intro [Promo]'') \<noteq> []" by code_simp
  have l: "length (split (fst (extract_label ''Intro [Promo]'')) '' - '') < 2" by code_simp
  have m: "LABEL_REGEX_search ''Intro [Promo]'' = Some ''[Promo]''" by code_simp
  have v: "snd (extract_label ''Intro [Promo]'') = ''Promo''" by code_simp
  from label_kept_when_split_fails[OF ne] obtain p where
    p: "clean_line ''# Intro [Promo]'' = Inr p"
    and r: "strip (sub_qmarks p) \<noteq> [] \<and> length (split (fst (extract_label p)) '' - '') < 2 \<longrightarrow>
          parse_track ''# Intro [Promo]'' = Inr (''unknown'', ''unknown'', snd (extract_label p))"
    by blast
  from p cl have "p = ''Intro [Promo]''" by simp
  with r q l have "parse_track ''# Intro [Promo]''
      = Inr (''unknown'', ''unknown'', snd (extract_label ''Intro [Promo]''))" by blast
  with v have "parse_track ''# Intro [Promo]'' = Inr (''unknown'', ''unknown'', ''Promo'')"
    by simp
  with ne cl q l m show ?thesis by blast
qed

text \<open>
  C5 as stated fails: the loop goes on to the next token after it has stripped one. A line
  that begins with two apostrophes and then \<open>* \<close> loses both tokens.
\<close>

theorem remove_superfluous_counterexample:
  "remove_superfluous (quote2 @ ''* Artist - Track'') = ''Artist - Track''
   \<and> remove_superfluous (quote2 @ ''* Artist - Track'') \<noteq> ''* Artist - Track''"
  by code_simp

text \<open>
  C5 amended: step 4 tries the three tokens in the fixed order two apostrophes, \<open>* \<close>,
  \<open>+ \<close>, each against the first two characters of the trimmed text the previous try
  left, so up to three tokens are stripped. For every line that begins with two
  apostrophes and \<open>* \<close> and is not blank after them, both tokens are stripped, and a
  \<open>+ \<close> that then leads the remainder is stripped as well.
\<close>

theorem remove_superfluous_strips_in_turn:
  "remove_superfluous s =
     (let p1 = (if take 2 s = quote2 then strip (drop 2 s) else s);
          p2 = (if take 2 p1 = ''* '' then strip (drop 2 p1) else p1)
      in if take 2 p2 = ''+ '' then strip (drop 2 p2) else p2)
   \<and> (strip rest \<noteq> [] \<longrightarrow>
        remove_superfluous (quote2 @ ''* '' @ rest)
          = (if take 2 (strip rest) = ''+ '' then strip (drop 2 (strip rest))
             else strip rest))"
proof (intro conjI impI)
  show "remove_superfluous s =
     (let p1 = (if take 2 s = quote2 then strip (drop 2 s) else s);
          p2 = (if take 2 p1 = ''* '' then strip (drop 2 p1) else p1)
      in if take 2 p2 = ''+ '' then strip (drop 2 p2) else p2)"
    unfolding remove_superfluous_def Let_def foldl.simps ..
next
  assume "strip rest \<noteq> []"
  then have r: "rstrip rest \<noteq> []" by (simp add: strip_Nil_iff rstrip_Nil_iff)
  have ns: "\<not> is_space (CHR ''*'')" by (simp add: is_space_def)
  have 1: "take 2 (quote2 @ ''* '' @ rest) = quote2" by (simp add: quote2_def)
  have 2: "drop 2 (quote2 @ ''* '' @ rest) = ''* '' @ rest" by (simp add: quote2_def)
  have "strip (''* '' @ rest) = rstrip (''* '' @ rest)"
    using ns by (simp add: strip_def lstrip_def)
  also have "\<dots> = ''* '' @ rstrip rest" by (rule rstrip_append[OF r])
  finally have 3: "strip (''* '' @ rest) = ''* '' @ rstrip rest" .
  have 4: "take 2 (''* '' @ rstrip rest) = ''* ''" by simp
  have 5: "strip (drop 2 (''* '' @ rstrip rest)) = strip rest" by (simp add: strip_rstrip)
  show "remove_superfluous (quote2 @ ''* '' @ rest)
          = (if take 2 (strip rest) = ''+ '' then strip (drop 2 (strip rest))
             else strip rest)"
    unfolding remove_superfluous_def foldl.simps 1 2 3 4 5 if_P[OF refl] ..
qed

theorem remove_superfluous_strips_in_turn_witness:
  "strip ''+ Sasha - Xpander '' \<noteq> []
   \<and> remove_superfluous (quote2 @ ''* '' @ ''+ Sasha - Xpander '') = ''Sasha - Xpander''"
proof -
  have h: "strip ''+ Sasha - Xpander '' \<noteq> []" by code_simp
  have e: "(if take 2 (strip ''+ Sasha - Xpander '') = ''+ ''
            then strip (drop 2 (strip ''+ Sasha - Xpander ''))
            else strip ''+ Sasha - Xpander '')
           = ''Sasha - Xpander''" by code_simp
  from remove_superfluous_strips_in_turn[of "[]" "''+ Sasha - Xpander ''"] h
  have "remove_superfluous (quote2 @ ''* '' @ ''+ Sasha - Xpander '')
          = (if take 2 (strip ''+ Sasha - Xpander '') = ''+ ''
             then strip (drop 2 (strip ''+ Sasha - Xpander ''))
             else strip ''+ Sasha - Xpander '')"
    by blast
  from this e
  have "remove_superfluous (quote2 @ ''* '' @ ''+ Sasha - Xpander '') = ''Sasha - Xpander''"
    by (rule trans)
  with h show ?thesis by (rule conjI)
qed





text \<open>
  C2 as stated fails: the skip filter drops a line that contains a list delimiter, not
  only a line that is one. The line below is not a delimiter, does not start with a
  semicolon and is not blank, and no entry is emitted for it and nothing is logged.
\<close>

theorem parse_tracks_count_counterexample:
  "parse_tracks (Lines [''Artist - Track <list>'']) = Inr ([], [])
   \<and> length (filter survives_spec [''Artist - Track <list>'']) = 1"
  by code_simp

text \<open>
  C2 amended: for every mix whose track lines are non-empty strings (the splitter removes
  the empty ones), \<open>parse_tracks\<close> returns without an exception, prints nothing, and emits
  exactly one entry, in order, for each line that survives skip-filtering, where a line
  survives when it does not contain \<open><list>\<close> or \<open></list>\<close>, does not start with a
  semicolon and is not blank after trimming. The counts are always equal, so the mismatch
  report is never produced.
\<close>

theorem parse_tracks_count:
  assumes "[] \<notin> set ls"
  shows "\<exists>parsed. parse_tracks (Lines ls) = Inr ([], parsed)
     \<and> map parse_track
         (filter (\<lambda>t. \<not> contains ''<list>'' t \<and> \<not> contains ''</list>'' t
                       \<and> \<not> prefix '';'' t \<and> strip t \<noteq> []) ls) = map Inr parsed
     \<and> length parsed =
         length (filter (\<lambda>t. \<not> contains ''<list>'' t \<and> \<not> contains ''</list>'' t
                               \<and> \<not> prefix '';'' t \<and> strip t \<noteq> []) ls)"
proof -
  let ?kept = "filter (\<lambda>t. \<not> contains ''<list>'' t \<and> \<not> contains ''</list>'' t
                             \<and> \<not> prefix '';'' t \<and> strip t \<noteq> []) ls"
  have f: "filter_tracks ls = Inr ?kept" by (rule filter_tracks_eq[OF assms])
  from assms have "[] \<notin> set ?kept" by simp
  from parse_loop_eq[OF this, of "[]"] obtain rs where
    rs: "parse_loop ?kept [] = Inr rs" and m: "map parse_track ?kept = map Inr rs" by auto
  from m have "length (map parse_track ?kept)
                 = length (map Inr rs :: (py_error + parsed_track) list)" by simp
  then have l: "length rs = length ?kept" by simp
  have "parse_tracks (Lines ls) = Inr ([], rs)"
    unfolding parse_tracks_def by (simp add: f rs bind_def l)
  with m l show ?thesis by blast
qed

theorem parse_tracks_count_witness:
  "[] \<notin> set [''# Sasha - Xpander [Deconstruction]'', ''<list>'', ''; Hour 2'', ''  '', ''???'']
   \<and> (\<exists>parsed.
         parse_tracks
           (Lines [''# Sasha - Xpander [Deconstruction]'', ''<list>'', ''; Hour 2'', ''  '',
                   ''???'']) = Inr ([], parsed)
         \<and> length parsed = 2)"
proof -
  let ?ls = "[''# Sasha - Xpander [Deconstruction]'', ''<list>'', ''; Hour 2'', ''  '', ''???'']"
  have h: "[] \<notin> set ?ls" by simp
  have k: "length (filter (\<lambda>t. \<not> contains ''<list>'' t \<and> \<not> contains ''</list>'' t
                               \<and> \<not> prefix '';'' t \<and> strip t \<noteq> []) ?ls) = 2"
    by code_simp
  from parse_tracks_count[OF h] obtain parsed where
    a: "parse_tracks (Lines ?ls) = Inr ([], parsed)"
    and b: "length parsed =
         length (filter (\<lambda>t. \<not> contains ''<list>'' t \<and> \<not> contains ''</list>'' t
                               \<and> \<not> prefix '';'' t \<and> strip t \<noteq> []) ?ls)"
    by blast
  from b k have "length parsed = 2" by (rule trans)
  with a have "\<exists>parsed. parse_tracks (Lines ?ls) = Inr ([], parsed) \<and> length parsed = 2"
    by blast
  with h show ?thesis by (rule conjI)
qed

subsection \<open>Tracklist splitter\<close>

text \<open>
  C3: a document with no \<open>Fake\<close> or \<open>Repeat\<close> in its first line and no tracklist header
  should give no tracklist, no categories and a flag that is false. On such a document
  the loop over the categories, which are still \<open>None\<close>, raises TypeError.
\<close>

theorem parse_tracklist_no_header_raises:
  "parse_tracklist (''{{Mix}}'' @ [newline] @ ''[[Category:Essential Mix]]'') = Inl TypeError"
  by code_simp

lemma parse_tracklist_headerless:
  assumes "split text [newline] = l0 # ls"
    and "\<not> contains ''Fake'' l0" and "\<not> contains ''Repeat'' l0"
    and "''== Tracklist =='' \<notin> set (l0 # ls)"
  shows "parse_tracklist text = Inl TypeError"
  using assms by (simp add: parse_tracklist_def)

text \<open>
  C4 as stated fails: removing \<open> |Original  =\<close> from the second line leaves the space
  that follows the equals sign, so the marker is \<open> /w/SomeOtherMix\<close> with a leading space.
\<close>

theorem duplicate_marker_counterexample:
  "parse_tracklist (''Fake'' @ [newline] @ '' |Original  = /w/SomeOtherMix'')
     = Inr (None, None, Original '' /w/SomeOtherMix'')
   \<and> parse_tracklist (''Fake'' @ [newline] @ '' |Original  = /w/SomeOtherMix'')
     \<noteq> Inr (None, None, Original ''/w/SomeOtherMix'')"
  by code_simp

text \<open>
  C4 amended: for every document whose first line contains \<open>Fake\<close> and whose second line
  is \<open> |Original  = /w/SomeOtherMix\<close>, the splitter returns no tracklist, no categories
  and the marker \<open> /w/SomeOtherMix\<close>: the second line without the literal
  \<open> |Original  =\<close>, not trimmed.
\<close>

theorem duplicate_marker_untrimmed:
  assumes "split text [newline] = l0 # l1 # rest"
    and "contains ''Fake'' l0"
    and "l1 = '' |Original  = /w/SomeOtherMix''"
  shows "parse_tracklist text = Inr (None, None, Original '' /w/SomeOtherMix'')"
proof -
  have "replace '' |Original  = /w/SomeOtherMix'' '' |Original  ='' [] = '' /w/SomeOtherMix''"
    by code_simp
  with assms show ?thesis by (simp add: parse_tracklist_def)
qed

theorem duplicate_marker_untrimmed_witness:
  "split (''{{Fake}}'' @ [newline] @ '' |Original  = /w/SomeOtherMix'' @ [newline] @ ''}}'')
     [newline] = [''{{Fake}}'', '' |Original  = /w/SomeOtherMix'', ''}}'']
   \<and> contains ''Fake'' ''{{Fake}}''
   \<and> parse_tracklist
        (''{{Fake}}'' @ [newline] @ '' |Original  = /w/SomeOtherMix'' @ [newline] @ ''}}'')
      = Inr (None, None, Original '' /w/SomeOtherMix'')"
proof -
  have s: "split (''{{Fake}}'' @ [newline] @ '' |Original  = /w/SomeOtherMix'' @ [newline] @ ''}}'')
     [newline] = [''{{Fake}}'', '' |Original  = /w/SomeOtherMix'', ''}}'']"
    by code_simp
  have c: "contains ''Fake'' ''{{Fake}}''" by code_simp
  from duplicate_marker_untrimmed[OF s c refl] s c show ?thesis by simp
qed

subsection \<open>Link parser\<close>

text \<open>
  C7: when the title, without the \<open> - Essential Mix\<close> and \<open>(Essential Mix)\<close> boilerplate,
  splits on \<open> - \<close> into a first segment of exactly 10 characters and at least one more
  segment, the link parser returns a record whose date is that first segment, unchanged
  (for a link that is not on the ignore list, which yields no record at all).
\<close>

theorem parse_mix_link_date:
  assumes "split (replace (replace (title tag) '' - Essential Mix'' []) ''(Essential Mix)'' [])
             '' - '' = s0 # s1 # rest"
    and "length s0 = 10"
    and "href tag \<notin> set MIXES_TO_IGNORE"
  shows "\<exists>m. parse_mix_link tag = Inr (Some (href tag, m)) \<and> date m = s0"
  using assms by (simp add: parse_mix_link_def artist_venue_of_def Let_def)

theorem parse_mix_link_date_witness:
  "split (replace (replace ''2019-01-05 - Sasha, Fergie @ Cream - Essential Mix''
            '' - Essential Mix'' []) ''(Essential Mix)'' []) '' - ''
     = [''2019-01-05'', ''Sasha, Fergie @ Cream'']
   \<and> length ''2019-01-05'' = 10
   \<and> ''/w/2019-01-05_-_Sasha'' \<notin> set MIXES_TO_IGNORE
   \<and> (\<exists>m. parse_mix_link
             \<lparr>href = ''/w/2019-01-05_-_Sasha'',
              title = ''2019-01-05 - Sasha, Fergie @ Cream - Essential Mix''\<rparr>
           = Inr (Some (''/w/2019-01-05_-_Sasha'', m)) \<and> date m = ''2019-01-05'')"
proof -
  let ?tag = "\<lparr>href = ''/w/2019-01-05_-_Sasha'',
               title = ''2019-01-05 - Sasha, Fergie @ Cream - Essential Mix''\<rparr>"
  have s: "split (replace (replace ''2019-01-05 - Sasha, Fergie @ Cream - Essential Mix''
            '' - Essential Mix'' []) ''(Essential Mix)'' []) '' - ''
     = [''2019-01-05'', ''Sasha, Fergie @ Cream'']" by code_simp
  then have s': "split (replace (replace (title ?tag) '' - Essential Mix'' [])
                   ''(Essential Mix)'' []) '' - '' = [''2019-01-05'', ''Sasha, Fergie @ Cream'']"
    by simp
  have n: "length ''2019-01-05'' = 10" by simp
  have i: "''/w/2019-01-05_-_Sasha'' \<notin> set MIXES_TO_IGNORE" by code_simp
  then have i': "href ?tag \<notin> set MIXES_TO_IGNORE" by simp
  from parse_mix_link_date[OF s' n i'] s n i show ?thesis by simp
qed

subsection \<open>Category cleaner\<close>

text \<open>
  Where no category is both in the removal set and a pattern match, the cleaner returns
  the categories that are neither, in their order.
\<close>

lemma list_remove_first: "c \<notin> set kept \<Longrightarrow> list_remove (kept @ c # rest) c = Inr (kept @ rest)"
  by (induction kept) (auto simp: bind_def)

lemma patterns_exclusive: "\<not> (match_essential c \<and> match_ibiza c)"
  by (cases c) (auto simp: match_essential_def match_ibiza_def)

lemma clean_loop_filter:
  assumes "\<forall>k\<in>set kept. \<not> (strip k \<in> set rm \<or> match_essential k \<or> match_ibiza k)"
    and "\<forall>c\<in>set rest. strip c \<in> set rm \<longrightarrow> \<not> match_essential c \<and> \<not> match_ibiza c"
  shows "clean_loop rm rest (kept @ rest)
     = Inr (kept @ filter (\<lambda>c. \<not> (strip c \<in> set rm \<or> match_essential c \<or> match_ibiza c)) rest)"
  using assms
proof (induction rest arbitrary: kept)
  case Nil
  then show ?case by simp
next
  case (Cons c rest)
  from Cons.prems(2) have once: "strip c \<in> set rm \<longrightarrow> \<not> match_essential c \<and> \<not> match_ibiza c"
    and rest: "\<forall>c\<in>set rest. strip c \<in> set rm \<longrightarrow> \<not> match_essential c \<and> \<not> match_ibiza c"
    by simp_all
  show ?case
  proof (cases "strip c \<in> set rm \<or> match_essential c \<or> match_ibiza c")
    case True
    with Cons.prems(1) have "c \<notin> set kept" by blast
    then have rm1: "list_remove (kept @ c # rest) c = Inr (kept @ rest)" by (rule list_remove_first)
    from True once patterns_exclusive[of c]
    consider "strip c \<in> set rm" "\<not> match_essential c" "\<not> match_ibiza c"
      | "strip c \<notin> set rm" "match_essential c" "\<not> match_ibiza c"
      | "strip c \<notin> set rm" "\<not> match_essential c" "match_ibiza c" by blast
    then have "clean_loop rm (c # rest) (kept @ c # rest) = clean_loop rm rest (kept @ rest)"
      by cases (simp_all add: remove_if_def bind_def rm1)
    with Cons.IH[OF Cons.prems(1) rest] True show ?thesis by simp
  next
    case False
    then have "clean_loop rm (c # rest) (kept @ c # rest) = clean_loop rm rest ((kept @ [c]) @ rest)"
      by (simp add: remove_if_def bind_def)
    moreover from False Cons.prems(1)
    have "\<forall>k\<in>set (kept @ [c]). \<not> (strip k \<in> set rm \<or> match_essential k \<or> match_ibiza k)"
      by simp
    ultimately show ?thesis using Cons.IH[OF _ rest, of "kept @ [c]"] False by simp
  qed
qed

lemma clean_categories_filter:
  assumes "\<forall>c\<in>set categories. strip c \<in> set (remove_categories arts d)
             \<longrightarrow> \<not> match_essential c \<and> \<not> match_ibiza c"
  shows "clean_categories arts d categories
     = Inr (filter (\<lambda>c. \<not> removable arts d c) categories)"
  using clean_loop_filter[of "[]" "remove_categories arts d" categories] assms
  by (simp add: clean_categories_def removable_def)

text \<open>
  C6: the cleaner is to remove every category whose trimmed value is in the removal set
  and every category that matches a pattern. A category that is both (an artist of the
  mix called \<open>Ibiza 1999\<close>) is removed twice, and the second \<open>remove\<close> raises ValueError.
\<close>

theorem clean_categories_double_remove:
  "clean_categories [''Ibiza 1999''] ''1999-08-01'' [''Ibiza 1999''] = Inl ValueError"
  by code_simp

end
